theory Spec2Isabelle
  imports Complex_Main
begin

section \<open>The Beeminder timer: data model\<close>

text \<open>
  The development follows the \<open>App\<close> component in its latest form, the one with the
  deadline clock, the persisted timer state and the manual flush (\<open>src/unnamed/part_000\<close>).
  \<open>src/src/App.tsx\<close> holds two earlier forms of the same component: the first counts
  \<open>remaining\<close> down by one each second and posts the fixed value 1, the second has the
  deadline clock and no persisted timer state.

  React state is one record; an event handler reads the state of the render it was created
  in and returns the state with every \<open>setX\<close> applied. What lies outside React state is
  part of the same record: the browser's local storage, the interval registered by the
  countdown effect, the log of datapoint POSTs handed to \<open>fetch\<close>, and the asynchronous
  calls still awaiting their response.

  Times are \<open>Date.now()\<close> values, integers in milliseconds; durations and \<open>remaining\<close>
  are seconds. Numbers are exact: the quotients \<open>selectedDuration / 60\<close> and
  \<open>elapsed / 60\<close> are rationals, not their floating-point roundings. The goal list, the
  YouTube title lookup, the notification and the sound are left out: no handler modelled
  here reads them.
\<close>

datatype Status = Idle | Running | Posting | Finished | Error

record StoredSettings =
  ss_username :: string
  ss_authToken :: string
  ss_goalSlug :: string

record StoredTimerState =
  st_status :: Status
  st_remaining :: int
  st_deadline :: "int option"
  st_paused :: bool
  st_goalSlug :: string
  st_selectedDuration :: int
  st_comment :: string

text \<open>
  Local storage holds JSON text under string keys. The model keeps the record that the text
  encodes: \<open>JSON.parse (JSON.stringify v)\<close> gives back \<open>v\<close> for records of strings,
  integers, booleans and null, and only this program writes these keys.
\<close>

datatype stored_item = SettingsItem StoredSettings | TimerItem StoredTimerState

definition SETTINGS_KEY :: string where
  "SETTINGS_KEY = ''beeminderTimerSettings''"

definition TIMER_STATE_KEY :: string where
  "TIMER_STATE_KEY = ''beeminderTimerState''"

definition THIRTY_MINUTES :: int where
  "THIRTY_MINUTES = 30 * 60"

text \<open>
  The comment of a datapoint is the trimmed text of the comment box, or a default built
  from the number \<open>selectedDuration / 60\<close>; the number is kept as it is, without its
  decimal rendering.
\<close>

datatype comment_text = Text string | MinutesFocusSession rat

record request =
  req_username :: string
  req_goalSlug :: string
  req_auth_token :: string
  req_value :: rat
  req_comment :: comment_text
  req_timestamp :: int

text \<open>
  The answer to a \<open>fetch\<close>: an HTTP response with its status code and body, or a
  rejected promise with the message of the exception.
\<close>

datatype response = HttpResponse nat string | FetchFailed string

text \<open>
  An asynchronous function suspended at \<open>await fetch\<close>: the completion post of the
  effect, or a manual flush, which keeps the value it computed.
\<close>

datatype pending_call = PostPending | FlushPending rat

record app =
  remaining :: "int option"
  deadline :: "int option"
  status :: Status
  error :: "string option"
  paused :: bool
  username :: string
  authToken :: string
  goalSlug :: string
  comment :: string
  hasStoredSettings :: bool
  showSettingsForm :: bool
  selectedDuration :: int
  flushMessage :: "string option"
  localStorage :: "string \<rightharpoonup> stored_item"
  interval :: "int option"
  requests :: "request list"
  pending :: "pending_call list"

text \<open>The state of the first render, over a given local storage.\<close>

definition initialApp :: "(string \<rightharpoonup> stored_item) \<Rightarrow> app" where
  "initialApp store =
     \<lparr> remaining = None, deadline = None, status = Idle, error = None, paused = False,
       username = [], authToken = [], goalSlug = [], comment = [],
       hasStoredSettings = False, showSettingsForm = True,
       selectedDuration = THIRTY_MINUTES, flushMessage = None,
       localStorage = store, interval = None, requests = [], pending = [] \<rparr>"

section \<open>Numbers and text\<close>

text \<open>
  \<open>Math.round (ms / 1000)\<close> on an integer number of milliseconds: \<open>Math.round\<close> rounds
  to the nearest integer, a half towards plus infinity.
\<close>

definition roundSeconds :: "int \<Rightarrow> int" where
  "roundSeconds ms = (ms + 500) div 1000"

definition digit :: "nat \<Rightarrow> char" where
  "digit n = ''0123456789'' ! (n mod 10)"

function show_nat :: "nat \<Rightarrow> string" where
  "show_nat n = (if n < 10 then [digit n] else show_nat (n div 10) @ [digit n])"
  by pat_completeness auto
termination
  by (relation "measure id") auto

declare show_nat.simps [simp del]

text \<open>
  \<open>toFixed(2)\<close> on a number that is not negative: the nearest multiple of a hundredth,
  the larger one at a tie.
\<close>

definition toFixed2 :: "rat \<Rightarrow> string" where
  "toFixed2 v =
     (let n = nat \<lfloor>v * 100 + 1 / 2\<rfloor>
      in show_nat (n div 100) @ ''.'' @ [digit (n div 10), digit n])"

text \<open>
  \<open>trim\<close> strips white space and line terminators at both ends. A \<open>char\<close> stands for a
  code unit below 256; of these, \<open>trim\<close> strips tab, line feed, vertical tab, form feed,
  carriage return, space and the no-break space. Text with code units from 256 on is
  outside \<open>string\<close>.
\<close>

definition isSpace :: "char \<Rightarrow> bool" where
  "isSpace c =
     (c \<in> set [CHR 0x09, CHR 0x0A, CHR 0x0B, CHR 0x0C, CHR 0x0D, CHR 0x20, CHR 0xA0])"

definition trim :: "string \<Rightarrow> string" where
  "trim s = rev (dropWhile isSpace (rev (dropWhile isSpace s)))"

definition ok :: "nat \<Rightarrow> bool" where
  "ok code = (200 \<le> code \<and> code \<le> 299)"

definition beeminderError :: "nat \<Rightarrow> string \<Rightarrow> string" where
  "beeminderError code body = ''Beeminder error '' @ show_nat code @ '': '' @ body"

section \<open>Effects\<close>

text \<open>
  The countdown effect depends on \<open>[status, deadline]\<close>. When one of them changes, its
  cleanup clears the interval and the effect registers a new one if the status is running
  and the deadline is not null. The interval's callback closes over that deadline, which is
  what the field \<open>interval\<close> holds while the interval is registered.
\<close>

definition countdownEffect :: "app \<Rightarrow> app" where
  "countdownEffect s =
     s\<lparr>interval := (if status s \<noteq> Running then None else deadline s)\<rparr>"

text \<open>The interval's callback, every 250 ms while the interval is registered.\<close>

definition intervalTick :: "int \<Rightarrow> app \<Rightarrow> app" where
  "intervalTick now s =
     (case interval s of
        None \<Rightarrow> s
      | Some d \<Rightarrow>
          (let msLeft = d - now;
               secsLeft = max 0 (roundSeconds msLeft)
           in s\<lparr>remaining := Some secsLeft,
                interval := (if secsLeft \<le> 0 then None else interval s)\<rparr>))"

definition postRequest :: "int \<Rightarrow> app \<Rightarrow> request" where
  "postRequest now s =
     \<lparr> req_username = username s, req_goalSlug = goalSlug s,
       req_auth_token = authToken s,
       req_value = of_int (selectedDuration s) / 60,
       req_comment =
         (if trim (comment s) \<noteq> [] then Text (trim (comment s))
          else MinutesFocusSession (of_int (selectedDuration s) / 60)),
       req_timestamp = now div 1000 \<rparr>"

text \<open>
  The effect that posts when the timer reaches zero, up to the point where
  \<open>postToBeeminder\<close> is suspended at \<open>await fetch\<close>.
\<close>

definition postEffect :: "int \<Rightarrow> app \<Rightarrow> app" where
  "postEffect now s =
     (if remaining s \<noteq> Some 0 \<or> status s = Posting \<or> status s = Finished then s
      else if username s = [] \<or> authToken s = [] \<or> goalSlug s = [] then
        s\<lparr>status := Error,
          error := Some ''Username, auth token and goal slug are required.''\<rparr>
      else
        s\<lparr>status := Posting, error := None,
          requests := requests s @ [postRequest now s],
          pending := pending s @ [PostPending]\<rparr>)"

text \<open>
  Both asynchronous functions wrap their body in \<open>try\<close>/\<open>catch\<close>. After the
  \<open>fetch\<close> an exception is thrown in two ways: the promise is rejected, or the
  response is not \<open>ok\<close> and the function throws \<open>Beeminder error <status>: <body>\<close>.
  \<open>thrown\<close> is the message the \<open>catch\<close> block receives, if any.
\<close>

definition thrown :: "response \<Rightarrow> string option" where
  "thrown r =
     (case r of
        HttpResponse code body \<Rightarrow> (if \<not> ok code then Some (beeminderError code body) else None)
      | FetchFailed msg \<Rightarrow> Some msg)"

text \<open>What \<open>postToBeeminder\<close> does once its \<open>fetch\<close> is answered.\<close>

definition postDone :: "response \<Rightarrow> app \<Rightarrow> app" where
  "postDone r s =
     (case thrown r of
        None \<Rightarrow>
          s\<lparr>status := Finished,
            localStorage := (localStorage s)(TIMER_STATE_KEY := None)\<rparr>
      | Some msg \<Rightarrow> s\<lparr>status := Error, error := Some msg\<rparr>)"

text \<open>
  One render after a state change from \<open>prev\<close> to \<open>s\<close>: each effect runs if one of its
  dependencies changed, the countdown effect first. An effect that sets state causes
  another render, so a commit is two such passes; \<open>commit_settled\<close> below shows that a
  third pass finds nothing to do.
\<close>

definition countdownDeps :: "app \<Rightarrow> Status \<times> int option" where
  "countdownDeps s = (status s, deadline s)"

definition postDeps ::
  "app \<Rightarrow> int option \<times> Status \<times> string \<times> string \<times> string \<times> string \<times> int" where
  "postDeps s =
     (remaining s, status s, username s, authToken s, goalSlug s, comment s,
      selectedDuration s)"

definition render :: "int \<Rightarrow> app \<Rightarrow> app \<Rightarrow> app" where
  "render now prev s =
     (let s1 = (if countdownDeps prev \<noteq> countdownDeps s then countdownEffect s else s)
      in if postDeps prev \<noteq> postDeps s then postEffect now s1 else s1)"

definition commit :: "int \<Rightarrow> app \<Rightarrow> app \<Rightarrow> app" where
  "commit now prev s = render now s (render now prev s)"

section \<open>Event handlers\<close>

definition startTimer :: "int \<Rightarrow> app \<Rightarrow> app" where
  "startTimer now s =
     (if goalSlug s = [] then
        s\<lparr>status := Error, error := Some ''You must select a goal first.''\<rparr>
      else if username s = [] \<or> authToken s = [] then
        s\<lparr>status := Error,
          error := Some ''Username and auth token are required to start.''\<rparr>
      else
        s\<lparr>error := None, flushMessage := None, status := Running, paused := False,
          remaining := Some (selectedDuration s),
          deadline := Some (now + selectedDuration s * 1000),
          localStorage := (localStorage s)(TIMER_STATE_KEY \<mapsto> TimerItem
            \<lparr> st_status = Running, st_remaining = selectedDuration s,
              st_deadline = Some (now + selectedDuration s * 1000), st_paused = False,
              st_goalSlug = goalSlug s, st_selectedDuration = selectedDuration s,
              st_comment = comment s \<rparr>)\<rparr>)"

definition cancelTimer :: "app \<Rightarrow> app" where
  "cancelTimer s =
     s\<lparr>deadline := None, remaining := None, status := Idle, paused := False,
       error := None, flushMessage := None,
       localStorage := (localStorage s)(TIMER_STATE_KEY := None)\<rparr>"

definition resetAfterFinish :: "app \<Rightarrow> app" where
  "resetAfterFinish s =
     s\<lparr>deadline := None, remaining := None, status := Idle, paused := False,
       error := None, flushMessage := None,
       localStorage := (localStorage s)(TIMER_STATE_KEY := None)\<rparr>"

text \<open>
  \<open>togglePause\<close> persists the values of the render it was created in: the status, the
  remaining seconds and the deadline as they were before the toggle, and the new value of
  \<open>paused\<close>.
\<close>

definition togglePause :: "int \<Rightarrow> app \<Rightarrow> app" where
  "togglePause now s =
     (case remaining s of
        None \<Rightarrow> s
      | Some r \<Rightarrow>
          (if \<not> paused s then s\<lparr>deadline := None, paused := True\<rparr>
           else s\<lparr>deadline := Some (now + r * 1000), paused := False\<rparr>)
          \<lparr>localStorage := (localStorage s)(TIMER_STATE_KEY \<mapsto> TimerItem
            \<lparr> st_status = status s, st_remaining = r, st_deadline = deadline s,
              st_paused = (\<not> paused s), st_goalSlug = goalSlug s,
              st_selectedDuration = selectedDuration s, st_comment = comment s \<rparr>)\<rparr>)"

definition flushRequest :: "int \<Rightarrow> app \<Rightarrow> rat \<Rightarrow> request" where
  "flushRequest now s v =
     \<lparr> req_username = username s, req_goalSlug = goalSlug s,
       req_auth_token = authToken s, req_value = v,
       req_comment = Text (''Flushed timer: '' @ toFixed2 v @ '' minutes''),
       req_timestamp = now div 1000 \<rparr>"

text \<open>\<open>flushTimer\<close> up to its \<open>await fetch\<close>.\<close>

definition flushTimer :: "int \<Rightarrow> app \<Rightarrow> app" where
  "flushTimer now s =
     (case remaining s of
        None \<Rightarrow> s
      | Some r \<Rightarrow>
          (if selectedDuration s \<le> 0 \<or> username s = [] \<or> authToken s = []
              \<or> goalSlug s = [] then s
           else
             (let elapsed = selectedDuration s - r
              in if elapsed \<le> 0 then
                   s\<lparr>flushMessage := Some ''No time elapsed to flush.''\<rparr>
                 else
                   s\<lparr>status := Posting, error := None,
                     requests := requests s @ [flushRequest now s (of_int elapsed / 60)],
                     pending := pending s @ [FlushPending (of_int elapsed / 60)]\<rparr>)))"

text \<open>\<open>flushTimer\<close> once its \<open>fetch\<close> is answered; \<open>v\<close> is the value it posted.\<close>

definition flushDone :: "rat \<Rightarrow> response \<Rightarrow> app \<Rightarrow> app" where
  "flushDone v r s =
     (case thrown r of
        None \<Rightarrow>
          s\<lparr>deadline := None, remaining := None, status := Idle, paused := False,
            localStorage := (localStorage s)(TIMER_STATE_KEY := None),
            flushMessage := Some (''Logged '' @ toFixed2 v @ '' minutes to Beeminder.'')\<rparr>
      | Some msg \<Rightarrow> s\<lparr>status := Error, error := Some msg\<rparr>)"

text \<open>The answer to the \<open>k\<close>-th call still pending resumes that call.\<close>

definition fetchDone :: "nat \<Rightarrow> response \<Rightarrow> app \<Rightarrow> app" where
  "fetchDone k r s =
     (if k < length (pending s) then
        (let s' = s\<lparr>pending := take k (pending s) @ drop (Suc k) (pending s)\<rparr>
         in case pending s ! k of
              PostPending \<Rightarrow> postDone r s'
            | FlushPending v \<Rightarrow> flushDone v r s')
      else s)"

text \<open>The space bar, pressed while no input field has the focus.\<close>

definition handleKeyDown :: "int \<Rightarrow> app \<Rightarrow> app" where
  "handleKeyDown now s =
     (if goalSlug s = [] \<or> username s = [] \<or> authToken s = []
         \<or> selectedDuration s \<le> 0 then s
      else if status s = Idle then startTimer now s
      else if status s = Running \<or> paused s then togglePause now s
      else s)"

definition saveSettings :: "app \<Rightarrow> app" where
  "saveSettings s =
     (let s' = s\<lparr>localStorage := (localStorage s)(SETTINGS_KEY \<mapsto> SettingsItem
                 \<lparr> ss_username = username s, ss_authToken = authToken s,
                   ss_goalSlug = goalSlug s \<rparr>)\<rparr>
      in if username s \<noteq> [] \<and> authToken s \<noteq> [] then
           s'\<lparr>hasStoredSettings := True, showSettingsForm := False\<rparr>
         else s')"

text \<open>
  The effect of the first render: the settings record, then the timer-state record. Both
  blocks set the goal slug; the later \<open>setGoalSlug\<close> is the one the next render sees.
\<close>

definition loadSettings :: "app \<Rightarrow> app" where
  "loadSettings s =
     (case localStorage s SETTINGS_KEY of
        Some (SettingsItem p) \<Rightarrow>
          (let s' = s\<lparr>username := ss_username p, authToken := ss_authToken p,
                      goalSlug := ss_goalSlug p\<rparr>
           in if ss_username p \<noteq> [] \<and> ss_authToken p \<noteq> [] then
                s'\<lparr>hasStoredSettings := True, showSettingsForm := False\<rparr>
              else s')
      | _ \<Rightarrow> s)"

definition loadTimerState :: "app \<Rightarrow> app" where
  "loadTimerState s =
     (case localStorage s TIMER_STATE_KEY of
        Some (TimerItem p) \<Rightarrow>
          s\<lparr>status := st_status p, remaining := Some (st_remaining p),
            deadline := st_deadline p, paused := st_paused p,
            goalSlug := st_goalSlug p, selectedDuration := st_selectedDuration p,
            comment := st_comment p\<rparr>
      | _ \<Rightarrow> s)"

text \<open>A restart of the page over the local storage left behind.\<close>

definition restart :: "int \<Rightarrow> (string \<rightharpoonup> stored_item) \<Rightarrow> app" where
  "restart now store =
     commit now (initialApp store) (loadTimerState (loadSettings (initialApp store)))"

section \<open>Events\<close>

datatype event =
  Start | Tick | TogglePause | Cancel | Reset | Flush | Space | Save
  | Fetched nat response
  | SetUsername string | SetAuthToken string | SetGoalSlug string | SetComment string

fun handle :: "int \<Rightarrow> event \<Rightarrow> app \<Rightarrow> app" where
  "handle now Start s = startTimer now s"
| "handle now Tick s = intervalTick now s"
| "handle now TogglePause s = togglePause now s"
| "handle now Cancel s = cancelTimer s"
| "handle now Reset s = resetAfterFinish s"
| "handle now Flush s = flushTimer now s"
| "handle now Space s = handleKeyDown now s"
| "handle now Save s = saveSettings s"
| "handle now (Fetched k r) s = fetchDone k r s"
| "handle now (SetUsername u) s = s\<lparr>username := u\<rparr>"
| "handle now (SetAuthToken t) s = s\<lparr>authToken := t\<rparr>"
| "handle now (SetGoalSlug g) s = s\<lparr>goalSlug := g\<rparr>"
| "handle now (SetComment c) s = s\<lparr>comment := c\<rparr>"

text \<open>An event at time \<open>now\<close>: the handler, then the render it causes.\<close>

definition fire :: "int \<Rightarrow> event \<Rightarrow> app \<Rightarrow> app" where
  "fire now e s = commit now s (handle now e s)"

text \<open>A run of events, each with the time it happens at.\<close>

fun run :: "(int \<times> event) list \<Rightarrow> app \<Rightarrow> app" where
  "run [] s = s"
| "run ((now, e) # es) s = run es (fire now e s)"

text \<open>
  The idle state after the user has filled in the settings, picked a goal and a duration
  and typed a comment. The events above leave the selected duration as it is: the
  duration is chosen before the timer is started.
\<close>

definition configured :: "string \<Rightarrow> string \<Rightarrow> string \<Rightarrow> string \<Rightarrow> int \<Rightarrow> app" where
  "configured u t g c d =
     (initialApp Map.empty)\<lparr>username := u, authToken := t, goalSlug := g, comment := c,
       selectedDuration := d\<rparr>"

inductive reachable :: "app \<Rightarrow> app \<Rightarrow> bool" for init :: app where
  reach_init: "reachable init init"
| reach_fire: "reachable init s \<Longrightarrow> reachable init (fire now e s)"

section \<open>The clock invariant\<close>

text \<open>
  What holds of the clock in every state that the events reach: an interval is registered
  only while running, and then on the deadline of the state; a running state has seconds
  remaining, and not zero of them; an idle state has no timer; a deadline and a pause
  exclude each other; a running state that is not paused has a deadline.
\<close>

definition clock_inv :: "app \<Rightarrow> bool" where
  "clock_inv s =
     ((interval s \<noteq> None \<longrightarrow> status s = Running)
    \<and> (status s = Running \<longrightarrow> interval s = deadline s)
    \<and> (status s = Running \<longrightarrow> remaining s \<noteq> None \<and> remaining s \<noteq> Some 0)
    \<and> (status s = Idle \<longrightarrow> remaining s = None \<and> deadline s = None \<and> \<not> paused s)
    \<and> (deadline s \<noteq> None \<longrightarrow> \<not> paused s)
    \<and> (status s = Running \<and> \<not> paused s \<longrightarrow> deadline s \<noteq> None))"

text \<open>
  An idle state of the component: no seconds remaining, no deadline, not paused, and no
  interval registered.
\<close>

definition idle_state :: "app \<Rightarrow> bool" where
  "idle_state s =
     (status s = Idle \<and> remaining s = None \<and> deadline s = None \<and> \<not> paused s
      \<and> interval s = None)"

section \<open>Example runs\<close>

text \<open>
  A user \<open>alice\<close> with a token, the goal \<open>read\<close>, no comment and a duration of twenty
  minutes.
\<close>

definition alice :: app where
  "alice = configured ''alice'' ''tok'' ''read'' [] 1200"

text \<open>A minute into the countdown.\<close>

definition ticking :: app where
  "ticking = run [(0, Start), (60000, Tick)] alice"

text \<open>A manual flush a minute into the countdown, its request not yet answered.\<close>

definition flushing :: app where
  "flushing = fire 60000 Flush ticking"

text \<open>
  Alice starts the timer without having saved her settings and reloads the page a tenth of
  a second later: the timer state comes back from local storage, the username and the
  token do not.
\<close>

definition unsaved_restart :: app where
  "unsaved_restart = restart 100 (localStorage (fire 0 Start alice))"

text \<open>
  A flush a minute into the countdown is answered with a server error; Alice then selects
  the goal \<open>write\<close>.
\<close>

definition other_goal :: app where
  "other_goal =
     run [(0, Start), (60000, Tick), (60000, Flush),
          (61000, Fetched 0 (HttpResponse 500 ''busy'')),
          (70000, SetGoalSlug ''write'')] alice"

text \<open>The countdown of twenty minutes has reached its deadline.\<close>

definition at_zero :: app where
  "at_zero = run [(0, Start), (1200000, Tick)] alice"

text \<open>The server answers the completion post with an error.\<close>

definition failed_once :: app where
  "failed_once = fire 1200500 (Fetched 0 (HttpResponse 500 ''busy'')) at_zero"

text \<open>And once more.\<close>

definition failed_twice :: app where
  "failed_twice = fire 1201000 (Fetched 0 (HttpResponse 500 ''busy'')) failed_once"

text \<open>
  Minus five minutes typed into the duration box, which takes \<open>parseInt\<close> of the text
  before the colon, and the timer started.
\<close>

definition negative_start :: app where
  "negative_start = fire 0 Start (configured ''alice'' ''tok'' ''read'' [] (- 300))"

text \<open>
  Alice pauses the timer a minute into the countdown and reloads the page: the record that
  the pause persisted holds the deadline from before the pause.
\<close>

definition paused_reload :: app where
  "paused_reload =
     restart 70000
       (localStorage (run [(0, Start), (60000, Tick), (61000, TogglePause)] alice))"

section \<open>Rounding\<close>

text \<open>\<open>roundSeconds\<close> is rounding to the nearest integer, a half upwards, of the quotient.\<close>

lemma roundSeconds_real: "roundSeconds ms = \<lfloor>real_of_int ms / 1000 + 1 / 2\<rfloor>"
proof -
  have "real_of_int ms / 1000 + 1 / 2 = real_of_int (ms + 500) / real_of_int 1000"
    by (simp add: field_simps)
  then show ?thesis
    unfolding roundSeconds_def by (simp only: floor_divide_of_int_eq)
qed

text \<open>A no-break space and a space around a comment are trimmed away.\<close>

lemma trim_no_break_space: "trim [CHR 0xA0, CHR ''a'', CHR 0x20] = ''a''"
  by (simp add: trim_def isSpace_def)

section \<open>What the effects leave alone\<close>

lemma postEffect_keeps:
  "remaining (postEffect now s) = remaining s"
  "deadline (postEffect now s) = deadline s"
  "paused (postEffect now s) = paused s"
  "username (postEffect now s) = username s"
  "authToken (postEffect now s) = authToken s"
  "goalSlug (postEffect now s) = goalSlug s"
  "comment (postEffect now s) = comment s"
  "selectedDuration (postEffect now s) = selectedDuration s"
  "flushMessage (postEffect now s) = flushMessage s"
  "localStorage (postEffect now s) = localStorage s"
  "interval (postEffect now s) = interval s"
  "hasStoredSettings (postEffect now s) = hasStoredSettings s"
  "showSettingsForm (postEffect now s) = showSettingsForm s"
  by (simp_all add: postEffect_def)

lemma countdownEffect_keeps:
  "remaining (countdownEffect s) = remaining s"
  "deadline (countdownEffect s) = deadline s"
  "status (countdownEffect s) = status s"
  "error (countdownEffect s) = error s"
  "paused (countdownEffect s) = paused s"
  "username (countdownEffect s) = username s"
  "authToken (countdownEffect s) = authToken s"
  "goalSlug (countdownEffect s) = goalSlug s"
  "comment (countdownEffect s) = comment s"
  "selectedDuration (countdownEffect s) = selectedDuration s"
  "flushMessage (countdownEffect s) = flushMessage s"
  "localStorage (countdownEffect s) = localStorage s"
  "requests (countdownEffect s) = requests s"
  "pending (countdownEffect s) = pending s"
  "hasStoredSettings (countdownEffect s) = hasStoredSettings s"
  "showSettingsForm (countdownEffect s) = showSettingsForm s"
  by (simp_all add: countdownEffect_def)

lemma render_keeps:
  "remaining (render now p s) = remaining s"
  "deadline (render now p s) = deadline s"
  "paused (render now p s) = paused s"
  "username (render now p s) = username s"
  "authToken (render now p s) = authToken s"
  "goalSlug (render now p s) = goalSlug s"
  "comment (render now p s) = comment s"
  "selectedDuration (render now p s) = selectedDuration s"
  "flushMessage (render now p s) = flushMessage s"
  "localStorage (render now p s) = localStorage s"
  "hasStoredSettings (render now p s) = hasStoredSettings s"
  "showSettingsForm (render now p s) = showSettingsForm s"
  by (simp_all add: render_def Let_def postEffect_keeps countdownEffect_keeps)

lemma commit_keeps:
  "remaining (commit now p s) = remaining s"
  "deadline (commit now p s) = deadline s"
  "paused (commit now p s) = paused s"
  "username (commit now p s) = username s"
  "authToken (commit now p s) = authToken s"
  "goalSlug (commit now p s) = goalSlug s"
  "comment (commit now p s) = comment s"
  "selectedDuration (commit now p s) = selectedDuration s"
  "flushMessage (commit now p s) = flushMessage s"
  "localStorage (commit now p s) = localStorage s"
  "hasStoredSettings (commit now p s) = hasStoredSettings s"
  "showSettingsForm (commit now p s) = showSettingsForm s"
  by (simp_all add: commit_def render_keeps)

lemma postEffect_idem: "postEffect now' (postEffect now s) = postEffect now s"
  by (simp add: postEffect_def)

lemma postEffect_status:
  "status (postEffect now s) =
     (if remaining s \<noteq> Some 0 \<or> status s = Posting \<or> status s = Finished then status s
      else if username s = [] \<or> authToken s = [] \<or> goalSlug s = [] then Error else Posting)"
  by (simp add: postEffect_def)

lemma postEffect_countdownEffect_status:
  "status (postEffect now (countdownEffect s)) = status (postEffect now s)"
  by (simp add: postEffect_status countdownEffect_keeps)

lemma postDeps_countdownEffect: "postDeps (countdownEffect s) = postDeps s"
  by (simp add: postDeps_def countdownEffect_keeps)

lemma countdownDeps_countdownEffect: "countdownDeps (countdownEffect s) = countdownDeps s"
  by (simp add: countdownDeps_def countdownEffect_keeps)

lemma render_status:
  "status (render now p s) = (if postDeps p \<noteq> postDeps s then status (postEffect now s) else status s)"
  by (simp add: render_def Let_def postEffect_countdownEffect_status countdownEffect_keeps)

section \<open>What a commit does\<close>

lemma commit_same_deps:
  "postDeps p = postDeps s \<Longrightarrow>
     commit now p s = (if countdownDeps p \<noteq> countdownDeps s then countdownEffect s else s)"
  by (simp add: commit_def render_def Let_def postDeps_countdownEffect countdownDeps_countdownEffect)

lemma commit_quiet:
  assumes "remaining s \<noteq> Some 0 \<or> status s = Posting \<or> status s = Finished"
  shows "commit now p s = (if countdownDeps p \<noteq> countdownDeps s then countdownEffect s else s)"
proof -
  have pe: "\<And>x. remaining x = remaining s \<Longrightarrow> status x = status s \<Longrightarrow> postEffect now x = x"
    using assms by (auto simp add: postEffect_def)
  have r1: "render now p s = (if countdownDeps p \<noteq> countdownDeps s then countdownEffect s else s)"
    by (simp add: render_def Let_def pe countdownEffect_keeps)
  show ?thesis
    unfolding commit_def r1
    by (simp add: render_def Let_def pe countdownEffect_keeps postDeps_countdownEffect countdownDeps_countdownEffect)
qed

lemma postRequest_interval: "postRequest now (s\<lparr>interval := i\<rparr>) = postRequest now s"
  by (simp add: postRequest_def)

lemma commit_posts:
  assumes "remaining s = Some 0" "status s \<noteq> Posting" "status s \<noteq> Finished"
    and "username s \<noteq> []" "authToken s \<noteq> []" "goalSlug s \<noteq> []"
    and "postDeps p \<noteq> postDeps s"
  shows "commit now p s =
     s\<lparr>status := Posting, error := None,
       requests := requests s @ [postRequest now s],
       pending := pending s @ [PostPending], interval := None\<rparr>"
proof -
  define x where "x = (if countdownDeps p \<noteq> countdownDeps s then countdownEffect s else s)"
  have x: "x = s\<lparr>interval := interval x\<rparr>"
    by (simp add: x_def countdownEffect_def)
  have r1: "render now p s = postEffect now x"
    using assms(7) by (simp add: render_def Let_def x_def)
  have pe: "postEffect now x = s\<lparr>status := Posting, error := None,
       requests := requests s @ [postRequest now s],
       pending := pending s @ [PostPending], interval := interval x\<rparr>"
    using assms(1-6) by (subst x) (simp add: postEffect_def postRequest_interval)
  have cd: "countdownDeps s \<noteq> countdownDeps (postEffect now x)"
    using assms(2) by (simp add: pe countdownDeps_def)
  have pd: "postDeps s \<noteq> postDeps (postEffect now x)"
    using assms(2) by (simp add: pe postDeps_def)
  have ce: "countdownEffect (postEffect now x) = s\<lparr>status := Posting, error := None,
       requests := requests s @ [postRequest now s],
       pending := pending s @ [PostPending], interval := None\<rparr>"
    by (simp add: pe countdownEffect_def)
  have "render now s (postEffect now x) = postEffect now (countdownEffect (postEffect now x))"
    using cd pd by (simp add: render_def Let_def)
  also have "\<dots> = countdownEffect (postEffect now x)"
    unfolding ce by (simp add: postEffect_def)
  finally show ?thesis
    by (simp add: commit_def r1 ce)
qed

lemma commit_invalid:
  assumes "remaining s = Some 0" "status s \<noteq> Posting" "status s \<noteq> Finished"
    and "username s = [] \<or> authToken s = [] \<or> goalSlug s = []"
    and "postDeps p \<noteq> postDeps s"
  shows "commit now p s =
     s\<lparr>status := Error, error := Some ''Username, auth token and goal slug are required.'',
       interval := (if countdownDeps p \<noteq> countdownDeps s \<or> status s \<noteq> Error
                    then None else interval s)\<rparr>"
proof -
  define x where "x = (if countdownDeps p \<noteq> countdownDeps s then countdownEffect s else s)"
  have x: "x = s\<lparr>interval := interval x\<rparr>"
    by (simp add: x_def countdownEffect_def)
  have r1: "render now p s = postEffect now x"
    using assms(5) by (simp add: render_def Let_def x_def)
  have pe: "postEffect now x =
      s\<lparr>status := Error, error := Some ''Username, auth token and goal slug are required.'',
        interval := interval x\<rparr>"
    using assms(1-4) by (subst x) (simp add: postEffect_def)
  show ?thesis
  proof (cases "status s = Error")
    case True
    have cd: "countdownDeps s = countdownDeps (postEffect now x)"
      using True by (simp add: pe countdownDeps_def)
    have pd: "postDeps s = postDeps (postEffect now x)"
      using True by (simp add: pe postDeps_def)
    have ix: "interval x = (if countdownDeps p \<noteq> countdownDeps s then None else interval s)"
      using True by (simp add: x_def countdownEffect_def)
    have "render now s (postEffect now x) = postEffect now x"
      using cd pd by (simp add: render_def Let_def)
    then show ?thesis
      using True by (simp add: commit_def r1 pe ix)
  next
    case False
    have cd: "countdownDeps s \<noteq> countdownDeps (postEffect now x)"
      using False by (simp add: pe countdownDeps_def)
    have pd: "postDeps s \<noteq> postDeps (postEffect now x)"
      using False by (simp add: pe postDeps_def)
    have ce: "countdownEffect (postEffect now x) =
      s\<lparr>status := Error, error := Some ''Username, auth token and goal slug are required.'',
        interval := None\<rparr>"
      by (simp add: pe countdownEffect_def)
    have "render now s (postEffect now x) = postEffect now (countdownEffect (postEffect now x))"
      using cd pd by (simp add: render_def Let_def)
    also have "\<dots> = countdownEffect (postEffect now x)"
      unfolding ce using assms(1-4) by (simp add: postEffect_def)
    finally show ?thesis
      using False by (simp add: commit_def r1 ce)
  qed
qed

text \<open>One equation for a commit.\<close>

lemma commit_unfold:
  "commit now p s =
     (if postDeps p = postDeps s \<or> remaining s \<noteq> Some 0 \<or> status s = Posting
         \<or> status s = Finished then
        (if countdownDeps p \<noteq> countdownDeps s then countdownEffect s else s)
      else if username s = [] \<or> authToken s = [] \<or> goalSlug s = [] then
        s\<lparr>status := Error,
          error := Some ''Username, auth token and goal slug are required.'',
          interval := (if countdownDeps p \<noteq> countdownDeps s \<or> status s \<noteq> Error
                       then None else interval s)\<rparr>
      else
        s\<lparr>status := Posting, error := None,
          requests := requests s @ [postRequest now s],
          pending := pending s @ [PostPending], interval := None\<rparr>)"
proof (cases "postDeps p = postDeps s")
  case True
  then show ?thesis by (simp add: commit_same_deps)
next
  case changed: False
  show ?thesis
  proof (cases "remaining s \<noteq> Some 0 \<or> status s = Posting \<or> status s = Finished")
    case True
    then show ?thesis using commit_quiet [OF True, of now p] by auto
  next
    case False
    show ?thesis
    proof (cases "username s = [] \<or> authToken s = [] \<or> goalSlug s = []")
      case True
      with False changed commit_invalid [of s p now] show ?thesis by auto
    next
      case False
      with \<open>\<not> (remaining s \<noteq> Some 0 \<or> status s = Posting \<or> status s = Finished)\<close>
        changed commit_posts [of s p now] show ?thesis by auto
    qed
  qed
qed

lemma commit_status: "status (commit now p s) = status (render now p s)"
proof -
  let ?s1 = "render now p s"
  have "status (postEffect now ?s1) = status ?s1" if "postDeps p \<noteq> postDeps s"
  proof -
    have "status (postEffect now ?s1) = status (postEffect now (postEffect now s))"
      using that by (simp add: postEffect_status [of now ?s1]
          postEffect_status [of now "postEffect now s"] render_keeps render_status postEffect_keeps)
    then show ?thesis using that by (simp add: postEffect_idem render_status)
  qed
  moreover have "postDeps s = postDeps ?s1" if "postDeps p = postDeps s"
    using that by (simp add: postDeps_def render_keeps render_status)
  ultimately show ?thesis
    unfolding commit_def by (subst render_status) auto
qed

lemma render_same_deps:
  "postDeps a = postDeps b \<Longrightarrow> countdownDeps a = countdownDeps b \<Longrightarrow> render now a b = b"
  by (simp add: render_def)

lemma commit_settled: "render now (render now p s) (commit now p s) = commit now p s"
proof (rule render_same_deps)
  show "postDeps (render now p s) = postDeps (commit now p s)"
    by (simp add: postDeps_def commit_keeps render_keeps commit_status)
  show "countdownDeps (render now p s) = countdownDeps (commit now p s)"
    by (simp add: countdownDeps_def commit_keeps render_keeps commit_status)
qed

section \<open>Starting the timer\<close>

lemma startTimer_ok:
  assumes "goalSlug s \<noteq> []" "username s \<noteq> []" "authToken s \<noteq> []"
  shows "status (startTimer now s) = Running"
    and "remaining (startTimer now s) = Some (selectedDuration s)"
    and "deadline (startTimer now s) = Some (now + selectedDuration s * 1000)"
    and "paused (startTimer now s) = False"
  using assms by (simp_all add: startTimer_def)

text \<open>
  C4. Starting with a selected duration \<open>d > 0\<close> and a goal slug, a username and a token
  that are not empty sets the status to running, sets \<open>remaining\<close> to \<open>d\<close>, which is what
  the next render reads, and sets the deadline \<open>d\<close> seconds after now: \<open>now + d * 1000\<close>
  on the millisecond clock.
\<close>

theorem start_sets_running:
  assumes "0 < selectedDuration s"
    and "goalSlug s \<noteq> []" and "username s \<noteq> []" and "authToken s \<noteq> []"
  shows "status (fire now Start s) = Running
     \<and> remaining (fire now Start s) = Some (selectedDuration s)
     \<and> deadline (fire now Start s) = Some (now + selectedDuration s * 1000)"
proof -
  have r: "remaining (startTimer now s) \<noteq> Some 0"
    using assms by (simp add: startTimer_ok)
  have "status (fire now Start s) = status (startTimer now s)"
    using r by (simp add: fire_def commit_unfold countdownEffect_keeps)
  then show ?thesis
    using assms by (simp add: fire_def commit_keeps startTimer_ok)
qed

theorem start_sets_running_witness:
  "0 < selectedDuration alice \<and> goalSlug alice \<noteq> [] \<and> username alice \<noteq> []
     \<and> authToken alice \<noteq> []
     \<and> status (fire 5000 Start alice) = Running
     \<and> remaining (fire 5000 Start alice) = Some 1200
     \<and> deadline (fire 5000 Start alice) = Some 1205000"
  using start_sets_running [of alice 5000]
  by (simp add: alice_def configured_def initialApp_def)

text \<open>
  C8. When the username, the token or the goal slug is empty, start sets the status to error
  with a validation message, and no request is sent or left pending.
\<close>

theorem start_missing_field:
  assumes "username s = [] \<or> authToken s = [] \<or> goalSlug s = []"
  shows "status (fire now Start s) = Error
     \<and> (error (fire now Start s) = Some ''You must select a goal first.''
        \<or> error (fire now Start s) = Some ''Username and auth token are required to start.''
        \<or> error (fire now Start s) = Some ''Username, auth token and goal slug are required.'')
     \<and> requests (fire now Start s) = requests s
     \<and> pending (fire now Start s) = pending s"
proof -
  define s' where "s' = startTimer now s"
  have s': "status s' = Error" "requests s' = requests s" "pending s' = pending s"
    "username s' = username s" "authToken s' = authToken s" "goalSlug s' = goalSlug s"
    "error s' = Some ''You must select a goal first.''
       \<or> error s' = Some ''Username and auth token are required to start.''"
    using assms by (auto simp add: s'_def startTimer_def)
  have f: "fire now Start s = commit now s s'"
    by (simp add: fire_def s'_def)
  show ?thesis
    unfolding f using s' assms
    by (auto simp add: commit_unfold countdownEffect_def)
qed

theorem start_missing_field_witness:
  "(username (initialApp Map.empty) = [] \<or> authToken (initialApp Map.empty) = []
      \<or> goalSlug (initialApp Map.empty) = [])
     \<and> status (fire 0 Start (initialApp Map.empty)) = Error
     \<and> error (fire 0 Start (initialApp Map.empty)) = Some ''You must select a goal first.''
     \<and> requests (fire 0 Start (initialApp Map.empty)) = []"
  using start_missing_field [of "initialApp Map.empty" 0]
  by (simp add: initialApp_def fire_def startTimer_def commit_unfold postDeps_def countdownDeps_def countdownEffect_def)

section \<open>Pause and resume\<close>

lemma commit_status_Idle: "status (commit now p s) = Idle \<Longrightarrow> status s = Idle"
  by (simp add: commit_unfold countdownEffect_keeps split: if_splits)

lemma togglePause_pause:
  assumes "remaining s = Some r" "\<not> paused s"
  shows "togglePause now s = s\<lparr>deadline := None, paused := True,
      localStorage := (localStorage s)(TIMER_STATE_KEY \<mapsto> TimerItem
            \<lparr> st_status = status s, st_remaining = r, st_deadline = deadline s,
              st_paused = True, st_goalSlug = goalSlug s,
              st_selectedDuration = selectedDuration s, st_comment = comment s \<rparr>)\<rparr>"
  using assms by (simp add: togglePause_def)

lemma togglePause_resume:
  assumes "remaining s = Some r" "paused s"
  shows "togglePause now s = s\<lparr>deadline := Some (now + r * 1000), paused := False,
      localStorage := (localStorage s)(TIMER_STATE_KEY \<mapsto> TimerItem
            \<lparr> st_status = status s, st_remaining = r, st_deadline = deadline s,
              st_paused = False, st_goalSlug = goalSlug s,
              st_selectedDuration = selectedDuration s, st_comment = comment s \<rparr>)\<rparr>"
  using assms by (simp add: togglePause_def)

lemma roundSeconds_near:
  assumes "t2 \<le> t3" "t3 \<le> t2 + 500"
  shows "roundSeconds (t2 + r * 1000 - t3) = r"
proof -
  have "t2 + r * 1000 - t3 + 500 = (500 - (t3 - t2)) + r * 1000" by simp
  moreover have "0 \<le> 500 - (t3 - t2)" "500 - (t3 - t2) < 1000" using assms by simp_all
  ultimately show ?thesis
    unfolding roundSeconds_def by (simp add: div_pos_pos_trivial)
qed

text \<open>
  C5. In a running state with \<open>remaining = r\<close>, pausing keeps \<open>remaining\<close> at \<open>r\<close>, clears
  the deadline and stops the ticks, so \<open>remaining\<close> stays frozen; resuming sets the deadline
  \<open>r\<close> seconds after now (\<open>now + r * 1000\<close> on the millisecond clock) and leaves
  \<open>remaining\<close> at \<open>r\<close>. A tick up to half a second after the resume still reads \<open>r\<close>.
\<close>

theorem pause_resume:
  assumes "status s = Running" and "remaining s = Some r" and "\<not> paused s"
    and "deadline s = Some dl"
  shows "let p = fire t1 TogglePause s; q = fire t2 TogglePause p in
       remaining p = Some r \<and> deadline p = None \<and> paused p
     \<and> (\<forall>t. remaining (fire t Tick p) = Some r)
     \<and> remaining q = Some r \<and> deadline q = Some (t2 + r * 1000) \<and> \<not> paused q
     \<and> (0 \<le> r \<longrightarrow> t2 \<le> t3 \<longrightarrow> t3 \<le> t2 + 500 \<longrightarrow> remaining (fire t3 Tick q) = Some r)"
proof -
  define p where "p = fire t1 TogglePause s"
  define q where "q = fire t2 TogglePause p"
  have p: "remaining p = Some r" "deadline p = None" "paused p" "status p = Running"
    "interval p = None"
    using assms
    by (simp_all add: p_def fire_def togglePause_pause commit_unfold postDeps_def
        countdownDeps_def countdownEffect_def)
  have tick_p: "remaining (fire t Tick p) = Some r" for t
    using p by (simp add: fire_def commit_keeps intervalTick_def)
  have q: "remaining q = Some r" "deadline q = Some (t2 + r * 1000)" "\<not> paused q"
    "interval q = Some (t2 + r * 1000)"
    using p
    by (simp_all add: q_def fire_def togglePause_resume commit_unfold postDeps_def
        countdownDeps_def countdownEffect_def)
  have tick_q: "remaining (fire t3 Tick q) = Some r"
    if "0 \<le> r" "t2 \<le> t3" "t3 \<le> t2 + 500"
    using q that by (simp add: fire_def commit_keeps intervalTick_def Let_def roundSeconds_near)
  show ?thesis
    using p q tick_p tick_q by (simp add: Let_def p_def [symmetric] q_def [symmetric])
qed

lemmas run_defs =
  alice_def configured_def initialApp_def THIRTY_MINUTES_def fire_def commit_unfold
  postDeps_def countdownDeps_def countdownEffect_def postRequest_def
  startTimer_def intervalTick_def togglePause_def cancelTimer_def resetAfterFinish_def
  flushTimer_def flushRequest_def fetchDone_def postDone_def flushDone_def thrown_def ok_def
  handleKeyDown_def saveSettings_def roundSeconds_def Let_def
  TIMER_STATE_KEY_def SETTINGS_KEY_def

lemma ticking_fields:
  "status ticking = Running \<and> remaining ticking = Some 1140 \<and> \<not> paused ticking
     \<and> deadline ticking = Some 1200000"
  by (simp add: ticking_def run_defs)

theorem pause_resume_witness:
  "status ticking = Running \<and> remaining ticking = Some 1140 \<and> \<not> paused ticking
     \<and> deadline ticking = Some 1200000
     \<and> (let p = fire 60100 TogglePause ticking; q = fire 100000 TogglePause p in
          remaining p = Some 1140 \<and> deadline p = None \<and> paused p
        \<and> remaining q = Some 1140 \<and> deadline q = Some 1240000
        \<and> remaining (fire 100250 Tick q) = Some 1140)"
proof -
  have h: "status ticking = Running" "remaining ticking = Some 1140" "\<not> paused ticking"
    "deadline ticking = Some 1200000"
    using ticking_fields by simp_all
  show ?thesis
    using h pause_resume [OF h, of 60100 100000 100250] by (simp add: Let_def)
qed

section \<open>Back to idle\<close>

lemma handle_to_idle:
  assumes "status s \<noteq> Idle" and "status (handle now e s) = Idle"
  shows "localStorage (handle now e s) TIMER_STATE_KEY = None"
proof (cases e)
  case Start
  with assms show ?thesis by (simp add: startTimer_def split: if_splits)
next
  case Tick
  with assms show ?thesis by (simp add: intervalTick_def Let_def split: option.splits)
next
  case TogglePause
  with assms show ?thesis by (simp add: togglePause_def split: option.splits if_splits)
next
  case Cancel
  then show ?thesis by (simp add: cancelTimer_def)
next
  case Reset
  then show ?thesis by (simp add: resetAfterFinish_def)
next
  case Flush
  with assms show ?thesis
    by (simp add: flushTimer_def Let_def split: option.splits if_splits)
next
  case Space
  with assms show ?thesis
    by (simp add: handleKeyDown_def startTimer_def togglePause_def
        split: option.splits if_splits)
next
  case Save
  with assms show ?thesis by (simp add: saveSettings_def Let_def split: if_splits)
next
  case (Fetched k r)
  with assms show ?thesis
    by (simp add: fetchDone_def postDone_def flushDone_def Let_def
        split: option.splits if_splits pending_call.splits)
qed (use assms in simp_all)

text \<open>
  C6. Cancel, reset after finish and a manual flush whose POST succeeds each set the status
  to idle and remove the timer-state record from local storage; and whatever the event, a
  step from a status other than idle to idle leaves no timer-state record behind.
\<close>

theorem idle_clears_timer_state:
  "(status (fire now Cancel s) = Idle
      \<and> localStorage (fire now Cancel s) TIMER_STATE_KEY = None)
   \<and> (status (fire now Reset s) = Idle
      \<and> localStorage (fire now Reset s) TIMER_STATE_KEY = None)
   \<and> (k < length (pending s) \<longrightarrow> pending s ! k = FlushPending v \<longrightarrow> thrown r = None \<longrightarrow>
        status (fire now (Fetched k r) s) = Idle
      \<and> localStorage (fire now (Fetched k r) s) TIMER_STATE_KEY = None)
   \<and> (status s \<noteq> Idle \<longrightarrow> status (fire now e s) = Idle \<longrightarrow>
        localStorage (fire now e s) TIMER_STATE_KEY = None)"
proof -
  have quiet: "status (commit now s x) = status x" if "remaining x = None" for x
    using that by (simp add: commit_unfold countdownEffect_keeps)
  have cancel: "status (fire now Cancel s) = Idle"
    "localStorage (fire now Cancel s) TIMER_STATE_KEY = None"
    by (simp_all add: fire_def commit_keeps quiet cancelTimer_def)
  have reset: "status (fire now Reset s) = Idle"
    "localStorage (fire now Reset s) TIMER_STATE_KEY = None"
    by (simp_all add: fire_def commit_keeps quiet resetAfterFinish_def)
  have flush: "status (fire now (Fetched k r) s) = Idle
      \<and> localStorage (fire now (Fetched k r) s) TIMER_STATE_KEY = None"
    if "k < length (pending s)" "pending s ! k = FlushPending v" "thrown r = None"
    using that by (simp add: fire_def commit_keeps quiet fetchDone_def flushDone_def)
  have any: "localStorage (fire now e s) TIMER_STATE_KEY = None"
    if "status s \<noteq> Idle" "status (fire now e s) = Idle"
  proof -
    have "status (handle now e s) = Idle"
      using that(2) unfolding fire_def by (rule commit_status_Idle)
    with that(1) show ?thesis
      by (simp add: fire_def commit_keeps handle_to_idle)
  qed
  show ?thesis
    using cancel reset flush any by blast
qed

lemma flushing_fields:
  "status flushing = Posting \<and> pending flushing = [FlushPending 1]
     \<and> localStorage flushing TIMER_STATE_KEY \<noteq> None"
  by (simp add: flushing_def ticking_def run_defs)

theorem idle_clears_timer_state_witness:
  "(0 < length (pending flushing) \<and> pending flushing ! 0 = FlushPending 1
      \<and> thrown (HttpResponse 200 ''ok'') = None
      \<and> status (fire 61000 (Fetched 0 (HttpResponse 200 ''ok'')) flushing) = Idle
      \<and> localStorage (fire 61000 (Fetched 0 (HttpResponse 200 ''ok'')) flushing)
           TIMER_STATE_KEY = None)
   \<and> (status ticking \<noteq> Idle \<and> status (fire 61000 Cancel ticking) = Idle
      \<and> localStorage ticking TIMER_STATE_KEY \<noteq> None
      \<and> localStorage (fire 61000 Cancel ticking) TIMER_STATE_KEY = None)"
proof -
  have h: "0 < length (pending flushing)" "pending flushing ! 0 = FlushPending 1"
    "thrown (HttpResponse 200 ''ok'') = None"
    using flushing_fields by (simp_all add: thrown_def ok_def)
  have t: "status ticking \<noteq> Idle" "localStorage ticking TIMER_STATE_KEY \<noteq> None"
    using ticking_fields by (simp_all add: ticking_def run_defs)
  show ?thesis
    using h t idle_clears_timer_state [of 61000 ticking 0 1 "HttpResponse 200 ''ok''" Cancel]
      idle_clears_timer_state [of 61000 flushing 0 1 "HttpResponse 200 ''ok''" Cancel]
    by simp
qed

section \<open>Manual flush\<close>

lemmas restart_defs = restart_def loadSettings_def loadTimerState_def

text \<open>
  C9, as stated, fails: after the reload above no time has elapsed, and a flush returns at
  its first guard, for the username is empty, without a message.
\<close>

theorem flush_without_message_counterexample:
  "status unsaved_restart = Running
     \<and> remaining unsaved_restart = Some 1200 \<and> selectedDuration unsaved_restart = 1200
     \<and> flushMessage (fire 200 Flush unsaved_restart) = None"
  by (simp add: unsaved_restart_def restart_defs run_defs)

text \<open>
  C9, amended. A flush with \<open>selectedDuration - remaining = 0\<close> sends no request and leaves
  the state as it is, but for the message: \<open>No time elapsed to flush.\<close> is set when the
  selected duration is positive and the username, the token and the goal slug are not
  empty; otherwise the flush returns at its first guard and sets no message.
\<close>

theorem flush_nothing_elapsed:
  assumes "remaining s = Some r" and "selectedDuration s - r = 0"
  shows "fire now Flush s =
       (if 0 < selectedDuration s \<and> username s \<noteq> [] \<and> authToken s \<noteq> [] \<and> goalSlug s \<noteq> []
        then s\<lparr>flushMessage := Some ''No time elapsed to flush.''\<rparr> else s)
     \<and> requests (fire now Flush s) = requests s
     \<and> pending (fire now Flush s) = pending s"
proof -
  have h: "flushTimer now s =
       (if 0 < selectedDuration s \<and> username s \<noteq> [] \<and> authToken s \<noteq> [] \<and> goalSlug s \<noteq> []
        then s\<lparr>flushMessage := Some ''No time elapsed to flush.''\<rparr> else s)"
    using assms by (simp add: flushTimer_def Let_def)
  have d: "postDeps s = postDeps (flushTimer now s)"
    "countdownDeps s = countdownDeps (flushTimer now s)"
    by (simp_all add: h postDeps_def countdownDeps_def)
  have "fire now Flush s = flushTimer now s"
    using d by (simp add: fire_def commit_same_deps)
  then show ?thesis
    by (simp add: h)
qed

theorem flush_nothing_elapsed_witness:
  "remaining (fire 0 Start alice) = Some 1200
     \<and> selectedDuration (fire 0 Start alice) - 1200 = 0
     \<and> flushMessage (fire 100 Flush (fire 0 Start alice)) = Some ''No time elapsed to flush.''
     \<and> requests (fire 100 Flush (fire 0 Start alice)) = []"
proof -
  have h: "remaining (fire 0 Start alice) = Some 1200"
    "selectedDuration (fire 0 Start alice) - 1200 = 0"
    by (simp_all add: run_defs)
  have f: "0 < selectedDuration (fire 0 Start alice) \<and> username (fire 0 Start alice) \<noteq> []
      \<and> authToken (fire 0 Start alice) \<noteq> [] \<and> goalSlug (fire 0 Start alice) \<noteq> []
      \<and> requests (fire 0 Start alice) = []"
    by (simp add: run_defs)
  show ?thesis
    using h f flush_nothing_elapsed [OF h, of 100] by simp
qed

text \<open>
  C10. When the POST of a manual flush fails, by a response that is not 2xx or by an
  exception of \<open>fetch\<close>, the status becomes error with the message of the failure, and
  \<open>remaining\<close>, the deadline, \<open>paused\<close> and local storage are what they were; this is so
  for the handler and, while \<open>remaining\<close> is not 0, after the render that follows, which
  sends no request.
\<close>

theorem flush_failure_keeps_session:
  assumes "k < length (pending s)" and "pending s ! k = FlushPending v"
    and "thrown r = Some msg"
  shows "status (fetchDone k r s) = Error \<and> error (fetchDone k r s) = Some msg
     \<and> remaining (fetchDone k r s) = remaining s \<and> deadline (fetchDone k r s) = deadline s
     \<and> paused (fetchDone k r s) = paused s \<and> localStorage (fetchDone k r s) = localStorage s
     \<and> (remaining s \<noteq> Some 0 \<longrightarrow>
          status (fire now (Fetched k r) s) = Error
        \<and> error (fire now (Fetched k r) s) = Some msg
        \<and> remaining (fire now (Fetched k r) s) = remaining s
        \<and> deadline (fire now (Fetched k r) s) = deadline s
        \<and> paused (fire now (Fetched k r) s) = paused s
        \<and> localStorage (fire now (Fetched k r) s) = localStorage s
        \<and> requests (fire now (Fetched k r) s) = requests s)"
proof -
  define s' where "s' = fetchDone k r s"
  have s': "s' = s\<lparr>pending := take k (pending s) @ drop (Suc k) (pending s),
      status := Error, error := Some msg\<rparr>"
    using assms by (simp add: s'_def fetchDone_def flushDone_def)
  have handler: "status s' = Error" "error s' = Some msg" "remaining s' = remaining s"
    "deadline s' = deadline s" "paused s' = paused s" "localStorage s' = localStorage s"
    "requests s' = requests s"
    by (simp_all add: s')
  have after: "status (commit now s s') = Error \<and> error (commit now s s') = Some msg
      \<and> requests (commit now s s') = requests s"
    if "remaining s \<noteq> Some 0"
    using that handler by (simp add: commit_unfold countdownEffect_def)
  show ?thesis
    using handler after
    by (simp add: fire_def commit_keeps s'_def [symmetric])
qed

lemma thrown_cases:
  "thrown (FetchFailed msg) = Some msg"
  "\<not> ok code \<Longrightarrow> thrown (HttpResponse code body) = Some (beeminderError code body)"
  "ok code \<Longrightarrow> thrown (HttpResponse code body) = None"
  by (simp_all add: thrown_def)

lemma show_nat_500: "show_nat 500 = ''500''"
  by (simp add: show_nat.simps digit_def)

theorem flush_failure_keeps_session_witness:
  "0 < length (pending flushing) \<and> pending flushing ! 0 = FlushPending 1
     \<and> thrown (HttpResponse 500 ''busy'') = Some ''Beeminder error 500: busy''
     \<and> remaining flushing \<noteq> Some 0
     \<and> status (fire 61000 (Fetched 0 (HttpResponse 500 ''busy'')) flushing) = Error
     \<and> error (fire 61000 (Fetched 0 (HttpResponse 500 ''busy'')) flushing)
          = Some ''Beeminder error 500: busy''
     \<and> remaining (fire 61000 (Fetched 0 (HttpResponse 500 ''busy'')) flushing) = Some 1140
     \<and> deadline (fire 61000 (Fetched 0 (HttpResponse 500 ''busy'')) flushing) = Some 1200000
     \<and> localStorage (fire 61000 (Fetched 0 (HttpResponse 500 ''busy'')) flushing)
          = localStorage ticking"
proof -
  have h: "0 < length (pending flushing)" "pending flushing ! 0 = FlushPending 1"
    "thrown (HttpResponse 500 ''busy'') = Some ''Beeminder error 500: busy''"
    using flushing_fields by (simp_all add: thrown_def ok_def beeminderError_def show_nat_500)
  have f: "remaining flushing = Some 1140" "deadline flushing = Some 1200000"
    "localStorage flushing = localStorage ticking"
    by (simp_all add: flushing_def ticking_def run_defs)
  show ?thesis
    using h f flush_failure_keeps_session [OF h, of 61000] by simp
qed

section \<open>Saving and reloading the settings\<close>

lemma keys_differ: "SETTINGS_KEY \<noteq> TIMER_STATE_KEY"
  by (simp add: SETTINGS_KEY_def TIMER_STATE_KEY_def)

text \<open>
  C7, as stated, fails: with the timer-state record of the failed flush still in local
  storage, saving the settings with the goal \<open>write\<close> and reloading brings back the goal
  \<open>read\<close> of the timer.
\<close>

theorem settings_roundtrip_counterexample:
  "goalSlug other_goal = ''write''
     \<and> goalSlug (restart 80000 (localStorage (fire 71000 Save other_goal))) = ''read''"
  by (simp add: other_goal_def restart_defs run_defs show_nat_500 beeminderError_def)

lemma saveSettings_storage:
  "localStorage (saveSettings s) =
     (localStorage s)(SETTINGS_KEY \<mapsto> SettingsItem
        \<lparr> ss_username = username s, ss_authToken = authToken s, ss_goalSlug = goalSlug s \<rparr>)"
  by (simp add: saveSettings_def Let_def)

lemma loadSettings_saved:
  assumes "localStorage x SETTINGS_KEY = Some (SettingsItem
        \<lparr> ss_username = u, ss_authToken = t, ss_goalSlug = g \<rparr>)"
  shows "username (loadSettings x) = u" "authToken (loadSettings x) = t"
    "goalSlug (loadSettings x) = g"
    "localStorage (loadSettings x) = localStorage x"
  using assms by (simp_all add: loadSettings_def Let_def)

lemma loadTimerState_fields:
  "username (loadTimerState x) = username x"
  "authToken (loadTimerState x) = authToken x"
  "goalSlug (loadTimerState x) =
     (case localStorage x TIMER_STATE_KEY of
        Some (TimerItem p) \<Rightarrow> st_goalSlug p | _ \<Rightarrow> goalSlug x)"
  by (simp_all add: loadTimerState_def split: option.splits stored_item.splits)

text \<open>
  C7, amended. Saving the settings and reloading restores the username and the token
  exactly. The settings block of the loading effect restores the goal slug too; after the
  whole effect the goal slug is the saved one when no timer-state record is in local
  storage, and the goal slug of that record when there is one.
\<close>

theorem settings_roundtrip:
  "username (restart now (localStorage (fire t Save s))) = username s
     \<and> authToken (restart now (localStorage (fire t Save s))) = authToken s
     \<and> goalSlug (loadSettings (initialApp (localStorage (fire t Save s)))) = goalSlug s
     \<and> (localStorage s TIMER_STATE_KEY = None \<longrightarrow>
          goalSlug (restart now (localStorage (fire t Save s))) = goalSlug s)
     \<and> (\<forall>p. localStorage s TIMER_STATE_KEY = Some (TimerItem p) \<longrightarrow>
          goalSlug (restart now (localStorage (fire t Save s))) = st_goalSlug p)"
proof -
  define store where "store = localStorage (fire t Save s)"
  have store: "store = (localStorage s)(SETTINGS_KEY \<mapsto> SettingsItem
        \<lparr> ss_username = username s, ss_authToken = authToken s, ss_goalSlug = goalSlug s \<rparr>)"
    by (simp add: store_def fire_def commit_keeps saveSettings_storage)
  define x where "x = loadSettings (initialApp store)"
  have init: "localStorage (initialApp store) SETTINGS_KEY = Some (SettingsItem
        \<lparr> ss_username = username s, ss_authToken = authToken s, ss_goalSlug = goalSlug s \<rparr>)"
    by (simp add: initialApp_def store)
  have x: "username x = username s" "authToken x = authToken s" "goalSlug x = goalSlug s"
    "localStorage x = store"
    using loadSettings_saved [OF init] by (simp_all add: x_def initialApp_def)
  have timer: "localStorage x TIMER_STATE_KEY = localStorage s TIMER_STATE_KEY"
    using keys_differ by (simp add: x store)
  have r: "restart now store = commit now (initialApp store) (loadTimerState x)"
    by (simp add: restart_def x_def)
  show ?thesis
    unfolding store_def [symmetric] r
    using x(1-3) timer
    by (simp add: commit_keeps loadTimerState_fields x_def [symmetric])
qed

theorem settings_roundtrip_witness:
  "localStorage alice TIMER_STATE_KEY = None
     \<and> username (restart 5000 (localStorage (fire 1000 Save alice))) = ''alice''
     \<and> authToken (restart 5000 (localStorage (fire 1000 Save alice))) = ''tok''
     \<and> goalSlug (restart 5000 (localStorage (fire 1000 Save alice))) = ''read''
     \<and> localStorage other_goal TIMER_STATE_KEY = Some (TimerItem
          \<lparr> st_status = Running, st_remaining = 1200, st_deadline = Some 1200000,
            st_paused = False, st_goalSlug = ''read'', st_selectedDuration = 1200,
            st_comment = [] \<rparr>)
     \<and> goalSlug (restart 5000 (localStorage (fire 1000 Save other_goal))) = ''read''"
proof -
  have a: "localStorage alice TIMER_STATE_KEY = None" "username alice = ''alice''"
    "authToken alice = ''tok''" "goalSlug alice = ''read''"
    by (simp_all add: alice_def configured_def initialApp_def)
  have p: "localStorage other_goal TIMER_STATE_KEY = Some (TimerItem
          \<lparr> st_status = Running, st_remaining = 1200, st_deadline = Some 1200000,
            st_paused = False, st_goalSlug = ''read'', st_selectedDuration = 1200,
            st_comment = [] \<rparr>)"
    by (simp add: other_goal_def run_defs)
  show ?thesis
    using a p settings_roundtrip [of 5000 1000 alice]
      settings_roundtrip [of 5000 1000 other_goal]
    by simp
qed

section \<open>The clock invariant holds in every reachable state\<close>

lemma commit_inv:
  assumes pre: "clock_inv p"
    and h1: "status s = Idle \<longrightarrow> remaining s = None \<and> deadline s = None \<and> \<not> paused s"
    and h2: "deadline s \<noteq> None \<longrightarrow> \<not> paused s"
    and h3: "status s = Running \<and> \<not> paused s \<longrightarrow> deadline s \<noteq> None"
    and h4: "status s = Running \<longrightarrow> remaining s \<noteq> None"
    and h5: "interval s = interval p \<or> (interval s = None \<and> remaining s = Some 0)"
  shows "clock_inv (commit now p s)"
proof -
  have h6: "postDeps p \<noteq> postDeps s" if "status s = Running" "remaining s = Some 0"
    using that pre by (auto simp add: clock_inv_def postDeps_def)
  have same: "interval p = deadline s" if "countdownDeps p = countdownDeps s" "status s = Running"
    using that pre by (auto simp add: clock_inv_def countdownDeps_def)
  have off: "interval p = None" if "countdownDeps p = countdownDeps s" "status s \<noteq> Running"
    using that pre by (auto simp add: clock_inv_def countdownDeps_def)
  show ?thesis
  proof (cases "postDeps p = postDeps s \<or> remaining s \<noteq> Some 0 \<or> status s = Posting
         \<or> status s = Finished")
    case quiet: True
    then have c: "commit now p s =
        (if countdownDeps p \<noteq> countdownDeps s then countdownEffect s else s)"
      by (simp add: commit_unfold)
    show ?thesis
    proof (cases "countdownDeps p = countdownDeps s")
      case True
      have "status s = Running \<longrightarrow> interval s = deadline s \<and> remaining s \<noteq> Some 0"
        using same [OF True] h5 h6 quiet by auto
      moreover have "status s \<noteq> Running \<longrightarrow> interval s = None"
        using off [OF True] h5 by auto
      ultimately show ?thesis
        using True h1 h2 h3 h4 by (auto simp add: c clock_inv_def)
    next
      case False
      have "status s = Running \<longrightarrow> remaining s \<noteq> Some 0"
        using h6 quiet by auto
      then show ?thesis
        using False h1 h2 h3 h4
        by (auto simp add: c clock_inv_def countdownEffect_def)
    qed
  next
    case loud: False
    have "countdownDeps p = countdownDeps s \<and> status s = Error \<longrightarrow> interval s = None"
      using off h5 by auto
    then show ?thesis
      using loud h2 by (auto simp add: commit_unfold clock_inv_def)
  qed
qed

lemma handle_ok:
  assumes a0: "interval p \<noteq> None \<longrightarrow> status p = Running"
    and a1: "status p = Idle \<longrightarrow> remaining p = None \<and> deadline p = None \<and> \<not> paused p"
    and a2: "deadline p \<noteq> None \<longrightarrow> \<not> paused p"
    and a3: "status p = Running \<and> \<not> paused p \<longrightarrow> deadline p \<noteq> None"
    and a4: "status p = Running \<longrightarrow> remaining p \<noteq> None"
  shows "(status (handle now e p) = Idle \<longrightarrow>
            remaining (handle now e p) = None \<and> deadline (handle now e p) = None
          \<and> \<not> paused (handle now e p))
    \<and> (deadline (handle now e p) \<noteq> None \<longrightarrow> \<not> paused (handle now e p))
    \<and> (status (handle now e p) = Running \<and> \<not> paused (handle now e p) \<longrightarrow>
            deadline (handle now e p) \<noteq> None)
    \<and> (status (handle now e p) = Running \<longrightarrow> remaining (handle now e p) \<noteq> None)
    \<and> (interval (handle now e p) = interval p
          \<or> (interval (handle now e p) = None \<and> remaining (handle now e p) = Some 0))"
proof (cases e)
  case Start
  with assms show ?thesis by (auto simp add: startTimer_def)
next
  case Tick
  with assms show ?thesis
    by (auto simp add: intervalTick_def Let_def split: option.splits)
next
  case TogglePause
  with assms show ?thesis
    by (auto simp add: togglePause_def split: option.splits)
next
  case Cancel
  with assms show ?thesis by (simp add: cancelTimer_def)
next
  case Reset
  with assms show ?thesis by (simp add: resetAfterFinish_def)
next
  case Flush
  with assms show ?thesis
    by (auto simp add: flushTimer_def Let_def split: option.splits)
next
  case Space
  with assms show ?thesis
    by (auto simp add: handleKeyDown_def startTimer_def togglePause_def
        split: option.splits)
next
  case Save
  with assms show ?thesis by (auto simp add: saveSettings_def Let_def)
next
  case (Fetched k r)
  with assms show ?thesis
    by (auto simp add: fetchDone_def postDone_def flushDone_def Let_def
        split: option.splits pending_call.splits)
next
  case (SetUsername u)
  with assms show ?thesis by simp
next
  case (SetAuthToken t)
  with assms show ?thesis by simp
next
  case (SetGoalSlug g)
  with assms show ?thesis by simp
next
  case (SetComment c)
  with assms show ?thesis by simp
qed

lemma fire_clock_inv:
  assumes "clock_inv s"
  shows "clock_inv (fire now e s)"
proof -
  have a: "interval s \<noteq> None \<longrightarrow> status s = Running"
    "status s = Idle \<longrightarrow> remaining s = None \<and> deadline s = None \<and> \<not> paused s"
    "deadline s \<noteq> None \<longrightarrow> \<not> paused s"
    "status s = Running \<and> \<not> paused s \<longrightarrow> deadline s \<noteq> None"
    "status s = Running \<longrightarrow> remaining s \<noteq> None"
    using assms unfolding clock_inv_def by blast+
  note h = handle_ok [OF a, of now e]
  note h1 = h [THEN conjunct1]
  note h2 = h [THEN conjunct2, THEN conjunct1]
  note h3 = h [THEN conjunct2, THEN conjunct2, THEN conjunct1]
  note h4 = h [THEN conjunct2, THEN conjunct2, THEN conjunct2, THEN conjunct1]
  note h5 = h [THEN conjunct2, THEN conjunct2, THEN conjunct2, THEN conjunct2]
  show ?thesis
    unfolding fire_def by (rule commit_inv [OF assms h1 h2 h3 h4 h5])
qed

lemma configured_clock_inv: "clock_inv (configured u t g c d)"
  by (simp add: clock_inv_def configured_def initialApp_def)

lemma reachable_clock_inv:
  "reachable (configured u t g c d) s \<Longrightarrow> clock_inv s"
  by (induction rule: reachable.induct) (simp_all add: configured_clock_inv fire_clock_inv)

section \<open>The countdown\<close>

lemma reachable_run: "reachable init s \<Longrightarrow> reachable init (run es s)"
proof (induction es arbitrary: s)
  case Nil
  then show ?case by simp
next
  case (Cons a es)
  obtain now e where a: "a = (now, e)" by (cases a)
  from Cons.prems have "reachable init (fire now e s)" by (rule reach_fire)
  then show ?case using Cons.IH by (simp add: a)
qed

lemma reachable_alice_run: "reachable alice (run es alice)"
  by (rule reachable_run) (rule reach_init)

lemma tick_idle: "interval s = None \<Longrightarrow> fire now Tick s = s"
  by (simp add: fire_def intervalTick_def commit_same_deps)

lemma tick_counting:
  assumes "clock_inv s" and "status s = Running" and "deadline s = Some dl"
    and "0 < roundSeconds (dl - now)"
  shows "fire now Tick s = s\<lparr>remaining := Some (roundSeconds (dl - now))\<rparr>"
proof -
  have i: "interval s = Some dl"
    using assms(1-3) unfolding clock_inv_def by simp
  have t: "intervalTick now s = s\<lparr>remaining := Some (roundSeconds (dl - now))\<rparr>"
    using i assms(4) by (simp add: intervalTick_def Let_def max_def)
  show ?thesis
    using assms(4) by (simp add: fire_def t commit_unfold countdownDeps_def)
qed

lemma tick_zero:
  assumes "clock_inv s" and "status s = Running" and "deadline s = Some dl"
    and "roundSeconds (dl - now) \<le> 0"
  shows "remaining (fire now Tick s) = Some 0"
    and "interval (fire now Tick s) = None"
    and "status (fire now Tick s) =
      (if username s = [] \<or> authToken s = [] \<or> goalSlug s = [] then Error else Posting)"
    and "requests (fire now Tick s) =
      (if username s = [] \<or> authToken s = [] \<or> goalSlug s = [] then requests s
       else requests s @ [postRequest now s])"
    and "pending (fire now Tick s) =
      (if username s = [] \<or> authToken s = [] \<or> goalSlug s = [] then pending s
       else pending s @ [PostPending])"
proof -
  have i: "interval s = Some dl" and r: "remaining s \<noteq> Some 0"
    using assms(1-3) unfolding clock_inv_def by simp_all
  have t: "intervalTick now s = s\<lparr>remaining := Some 0, interval := None\<rparr>"
    using i assms(4) by (simp add: intervalTick_def Let_def max_def)
  have d: "postDeps s \<noteq> postDeps (s\<lparr>remaining := Some 0, interval := None\<rparr>)"
    using r by (auto simp add: postDeps_def)
  have pr: "postRequest now (s\<lparr>remaining := Some 0, interval := None\<rparr>) = postRequest now s"
    by (simp add: postRequest_def)
  show "remaining (fire now Tick s) = Some 0"
    by (simp add: fire_def t commit_keeps)
  show "interval (fire now Tick s) = None"
    using d assms(2) by (simp add: fire_def t commit_unfold countdownDeps_def)
  show "status (fire now Tick s) =
      (if username s = [] \<or> authToken s = [] \<or> goalSlug s = [] then Error else Posting)"
    using d assms(2) by (simp add: fire_def t commit_unfold)
  show "requests (fire now Tick s) =
      (if username s = [] \<or> authToken s = [] \<or> goalSlug s = [] then requests s
       else requests s @ [postRequest now s])"
    using d assms(2) by (simp add: fire_def t commit_unfold pr)
  show "pending (fire now Tick s) =
      (if username s = [] \<or> authToken s = [] \<or> goalSlug s = [] then pending s
       else pending s @ [PostPending])"
    using d assms(2) by (simp add: fire_def t commit_unfold)
qed

text \<open>
  C2. In a state reached by the events where the status is running and the deadline is
  \<open>dl\<close>, a tick at time \<open>now\<close> sets \<open>remaining\<close> to \<open>max 0 (round ((dl - now) / 1000))\<close>,
  whatever \<open>remaining\<close> was before; if that is 0 the interval is cleared and the status
  leaves running, otherwise the interval stays. Where the status is not running, or the
  deadline is null, no interval is registered and a tick changes nothing.
\<close>

theorem countdown_tick:
  assumes "reachable (configured u t g c d) s"
  shows "(status s = Running \<and> deadline s = Some dl \<longrightarrow>
            remaining (fire now Tick s) = Some (max 0 (roundSeconds (dl - now)))
          \<and> roundSeconds (dl - now) = \<lfloor>real_of_int (dl - now) / 1000 + 1 / 2\<rfloor>
          \<and> (\<forall>x. remaining (fire now Tick (s\<lparr>remaining := x\<rparr>)) = remaining (fire now Tick s))
          \<and> (remaining (fire now Tick s) = Some 0 \<longrightarrow>
                interval (fire now Tick s) = None \<and> status (fire now Tick s) \<noteq> Running)
          \<and> (remaining (fire now Tick s) \<noteq> Some 0 \<longrightarrow>
                interval (fire now Tick s) = Some dl \<and> status (fire now Tick s) = Running))
      \<and> (status s \<noteq> Running \<or> deadline s = None \<longrightarrow>
            interval s = None \<and> fire now Tick s = s)"
proof -
  have inv: "clock_inv s"
    using assms by (rule reachable_clock_inv)
  have off: "interval s = None \<and> fire now Tick s = s"
    if "status s \<noteq> Running \<or> deadline s = None"
  proof -
    have "interval s = None"
      using inv that unfolding clock_inv_def by auto
    then show ?thesis by (simp add: tick_idle)
  qed
  have on: "remaining (fire now Tick s) = Some (max 0 (roundSeconds (dl - now)))
          \<and> (\<forall>x. remaining (fire now Tick (s\<lparr>remaining := x\<rparr>)) = remaining (fire now Tick s))
          \<and> (remaining (fire now Tick s) = Some 0 \<longrightarrow>
                interval (fire now Tick s) = None \<and> status (fire now Tick s) \<noteq> Running)
          \<and> (remaining (fire now Tick s) \<noteq> Some 0 \<longrightarrow>
                interval (fire now Tick s) = Some dl \<and> status (fire now Tick s) = Running)"
    if run: "status s = Running" and dl: "deadline s = Some dl"
  proof -
    have i: "interval s = Some dl"
      using inv run dl unfolding clock_inv_def by simp
    have any: "remaining (fire now Tick x) = Some (max 0 (roundSeconds (dl - now)))"
      if "interval x = Some dl" for x
      using that by (simp add: fire_def commit_keeps intervalTick_def Let_def)
    have counter: "remaining (fire now Tick (s\<lparr>remaining := x\<rparr>)) = remaining (fire now Tick s)"
      for x
      using i by (simp add: any)
    show ?thesis
    proof (cases "0 < roundSeconds (dl - now)")
      case True
      from tick_counting [OF inv run dl True] i run True counter show ?thesis
        by simp
    next
      case False
      then have z: "roundSeconds (dl - now) \<le> 0" by simp
      from tick_zero(1-3) [OF inv run dl z] z counter show ?thesis
        by (simp add: max_def)
    qed
  qed
  show ?thesis
    using on off by (simp add: roundSeconds_real)
qed

theorem countdown_tick_witness:
  "reachable (configured ''alice'' ''tok'' ''read'' [] 1200) ticking
     \<and> status ticking = Running \<and> deadline ticking = Some 1200000
     \<and> remaining (fire 90400 Tick ticking) = Some 1110
     \<and> remaining (fire 1199500 Tick ticking) = Some 1
     \<and> interval (fire 1199500 Tick ticking) = Some 1200000
     \<and> remaining (fire 1199600 Tick ticking) = Some 0
     \<and> interval (fire 1199600 Tick ticking) = None
     \<and> status (fire 1199600 Tick ticking) \<noteq> Running
     \<and> status (fire 61000 Cancel ticking) \<noteq> Running
     \<and> fire 90400 Tick (fire 61000 Cancel ticking) = fire 61000 Cancel ticking"
proof -
  have r: "reachable (configured ''alice'' ''tok'' ''read'' [] 1200) ticking"
    using reachable_alice_run [of "[(0, Start), (60000, Tick)]"]
    by (simp add: ticking_def alice_def)
  then have r': "reachable (configured ''alice'' ''tok'' ''read'' [] 1200)
      (fire 61000 Cancel ticking)"
    by (rule reach_fire)
  have f: "status ticking = Running" "deadline ticking = Some 1200000"
    using ticking_fields by simp_all
  have c: "status (fire 61000 Cancel ticking) \<noteq> Running"
    by (simp add: ticking_def run_defs)
  show ?thesis
    using r f c
      countdown_tick [OF r, of 1200000 90400]
      countdown_tick [OF r, of 1200000 1199500]
      countdown_tick [OF r, of 1200000 1199600]
      countdown_tick [OF r', of 0 90400]
    by (simp add: roundSeconds_def)
qed

section \<open>Deadline and remaining in reachable states\<close>

lemma idle_state_clock_inv: "idle_state s \<Longrightarrow> clock_inv s"
  by (simp add: idle_state_def clock_inv_def)

lemma reachable_clock_inv_from:
  assumes "reachable init s" and "clock_inv init"
  shows "clock_inv s"
  using assms by (induction rule: reachable.induct) (simp_all add: fire_clock_inv)

lemma configured_idle_state: "idle_state (configured u t g c d)"
  by (simp add: idle_state_def configured_def initialApp_def)

lemma restart_idle_state:
  assumes "store TIMER_STATE_KEY = None"
  shows "idle_state (restart now store)"
proof -
  define x where "x = loadTimerState (loadSettings (initialApp store))"
  have l: "localStorage (loadSettings (initialApp store)) = store"
    by (simp add: loadSettings_def initialApp_def Let_def split: option.splits stored_item.splits)
  have f: "status (loadSettings (initialApp store)) = Idle"
    "remaining (loadSettings (initialApp store)) = None"
    "deadline (loadSettings (initialApp store)) = None"
    "\<not> paused (loadSettings (initialApp store))"
    "interval (loadSettings (initialApp store)) = None"
    by (simp_all add: loadSettings_def initialApp_def Let_def split: option.splits stored_item.splits)
  have x: "x = loadSettings (initialApp store)"
    using assms l by (simp add: x_def loadTimerState_def)
  have c: "countdownDeps (initialApp store) = countdownDeps x"
    using f by (simp add: x countdownDeps_def initialApp_def)
  have "restart now store = commit now (initialApp store) x"
    by (simp add: restart_def x_def)
  also have "\<dots> = x"
    using f c by (simp add: commit_unfold x)
  finally show ?thesis
    using f by (simp add: idle_state_def x)
qed

lemma handle_nonneg:
  assumes "0 \<le> selectedDuration s" and "\<forall>r. remaining s = Some r \<longrightarrow> 0 \<le> r"
  shows "selectedDuration (handle now e s) = selectedDuration s
     \<and> (\<forall>r. remaining (handle now e s) = Some r \<longrightarrow> 0 \<le> r)"
proof (cases e)
  case Start
  with assms show ?thesis by (simp add: startTimer_def)
next
  case Tick
  with assms show ?thesis
    by (auto simp add: intervalTick_def Let_def split: option.splits)
next
  case TogglePause
  with assms show ?thesis by (simp add: togglePause_def split: option.splits)
next
  case Cancel
  with assms show ?thesis by (simp add: cancelTimer_def)
next
  case Reset
  with assms show ?thesis by (simp add: resetAfterFinish_def)
next
  case Flush
  with assms show ?thesis by (simp add: flushTimer_def Let_def split: option.splits)
next
  case Space
  with assms show ?thesis
    by (simp add: handleKeyDown_def startTimer_def togglePause_def split: option.splits)
next
  case Save
  with assms show ?thesis by (simp add: saveSettings_def Let_def)
next
  case (Fetched k r)
  with assms show ?thesis
    by (simp add: fetchDone_def postDone_def flushDone_def Let_def
        split: option.splits pending_call.splits)
next
  case (SetUsername u)
  with assms show ?thesis by simp
next
  case (SetAuthToken t)
  with assms show ?thesis by simp
next
  case (SetGoalSlug g)
  with assms show ?thesis by simp
next
  case (SetComment c)
  with assms show ?thesis by simp
qed

lemma reachable_nonneg:
  assumes "reachable init s" and "0 \<le> selectedDuration init" and "remaining init = None"
  shows "selectedDuration s = selectedDuration init
     \<and> (\<forall>r. remaining s = Some r \<longrightarrow> 0 \<le> r)"
  using assms
proof (induction rule: reachable.induct)
  case reach_init
  then show ?case by simp
next
  case (reach_fire s now e)
  then have "0 \<le> selectedDuration s" "\<forall>r. remaining s = Some r \<longrightarrow> 0 \<le> r"
    by simp_all
  from handle_nonneg [OF this, of now e] reach_fire show ?case
    by (simp add: fire_def commit_keeps)
qed

text \<open>
  C3, as stated, fails. When the countdown reaches zero the status leaves running and the
  deadline stays set. Two more states break the invariant of the claim: a start with minus five
  minutes typed into the duration box leaves \<open>remaining\<close> negative; and a page load after
  a pause restores the deadline that the pause persisted, in a state that is running and
  paused.
\<close>

theorem deadline_outlives_running_counterexample:
  "reachable alice at_zero \<and> deadline at_zero = Some 1200000 \<and> status at_zero = Posting
     \<and> \<not> (deadline at_zero \<noteq> None \<longleftrightarrow> status at_zero = Running \<and> \<not> paused at_zero)
     \<and> reachable (configured ''alice'' ''tok'' ''read'' [] (- 300)) negative_start
     \<and> remaining negative_start = Some (- 300)
     \<and> status paused_reload = Running \<and> paused paused_reload
     \<and> deadline paused_reload = Some 1200000"
proof -
  have "reachable alice at_zero"
    unfolding at_zero_def by (rule reachable_alice_run)
  moreover have "deadline at_zero = Some 1200000 \<and> status at_zero = Posting"
    by (simp add: at_zero_def run_defs)
  moreover have "reachable (configured ''alice'' ''tok'' ''read'' [] (- 300)) negative_start"
    unfolding negative_start_def by (rule reach_fire) (rule reach_init)
  moreover have "remaining negative_start = Some (- 300)"
    by (simp add: negative_start_def run_defs)
  moreover have "status paused_reload = Running \<and> paused paused_reload
     \<and> deadline paused_reload = Some 1200000"
    by (simp add: paused_reload_def restart_defs run_defs)
  ultimately show ?thesis by simp
qed

text \<open>
  C3, amended. In every state that the events reach from an idle state of the component,
  such as the state after a page load that finds no persisted timer state: while the status
  is running, the deadline is set exactly when the timer is not paused; whenever the
  deadline is set, the timer is not paused and the status is not idle; and, if the selected
  duration is not negative, \<open>remaining\<close> is null or not negative.
\<close>

theorem reachable_deadline_remaining:
  assumes "idle_state init" and "reachable init s"
  shows "(status s = Running \<longrightarrow> (deadline s \<noteq> None \<longleftrightarrow> \<not> paused s))
     \<and> (deadline s \<noteq> None \<longrightarrow> \<not> paused s \<and> status s \<noteq> Idle)
     \<and> (0 \<le> selectedDuration init \<longrightarrow>
          remaining s = None \<or> (\<exists>r. remaining s = Some r \<and> 0 \<le> r))"
proof -
  have "clock_inv s"
    using assms(2) idle_state_clock_inv [OF assms(1)] by (rule reachable_clock_inv_from)
  then have "(status s = Running \<longrightarrow> (deadline s \<noteq> None \<longleftrightarrow> \<not> paused s))
     \<and> (deadline s \<noteq> None \<longrightarrow> \<not> paused s \<and> status s \<noteq> Idle)"
    unfolding clock_inv_def by auto
  moreover have "remaining s = None \<or> (\<exists>r. remaining s = Some r \<and> 0 \<le> r)"
    if "0 \<le> selectedDuration init"
  proof -
    have "remaining init = None"
      using assms(1) by (simp add: idle_state_def)
    from reachable_nonneg [OF assms(2) that this] show ?thesis
      by (cases "remaining s") simp_all
  qed
  ultimately show ?thesis by simp
qed

theorem reachable_deadline_remaining_witness:
  "idle_state alice \<and> reachable alice ticking \<and> 0 \<le> selectedDuration alice
     \<and> status ticking = Running \<and> deadline ticking \<noteq> None \<and> \<not> paused ticking
     \<and> remaining ticking = Some 1140
     \<and> reachable alice at_zero \<and> deadline at_zero \<noteq> None \<and> \<not> paused at_zero
     \<and> status at_zero \<noteq> Idle \<and> remaining at_zero = Some 0"
proof -
  have i: "idle_state alice"
    unfolding alice_def by (rule configured_idle_state)
  have r: "reachable alice ticking"
    unfolding ticking_def by (rule reachable_alice_run)
  have z: "reachable alice at_zero"
    unfolding at_zero_def by (rule reachable_alice_run)
  have d: "0 \<le> selectedDuration alice"
    by (simp add: alice_def configured_def initialApp_def)
  have f: "deadline at_zero = Some 1200000" "remaining at_zero = Some 0"
    by (simp_all add: at_zero_def run_defs)
  show ?thesis
    using i r z d f ticking_fields
      reachable_deadline_remaining [OF i r] reachable_deadline_remaining [OF i z]
    by simp
qed

section \<open>The post at zero\<close>

lemma post_answered:
  assumes "k < length (pending s)" and "pending s ! k = PostPending"
  shows "fetchDone k r s =
      (case thrown r of
         None \<Rightarrow> s\<lparr>pending := take k (pending s) @ drop (Suc k) (pending s),
                    status := Finished,
                    localStorage := (localStorage s)(TIMER_STATE_KEY := None)\<rparr>
       | Some msg \<Rightarrow> s\<lparr>pending := take k (pending s) @ drop (Suc k) (pending s),
                    status := Error, error := Some msg\<rparr>)"
  using assms by (simp add: fetchDone_def postDone_def split: option.splits)

text \<open>
  The completion post when the server accepts it: one request with the value
  \<open>selectedDuration / 60\<close>, the status posting and then finished, and nothing more after
  that.
\<close>

lemma completion_post_accepted:
  assumes "reachable (configured u t g c d) s"
    and "status s = Running" and "deadline s = Some dl" and "roundSeconds (dl - now) \<le> 0"
    and "username s \<noteq> []" and "authToken s \<noteq> []" and "goalSlug s \<noteq> []"
    and "thrown r = None"
  shows "let s1 = fire now Tick s; s2 = fire now' (Fetched (length (pending s)) r) s1 in
      remaining s1 = Some 0 \<and> status s1 = Posting
    \<and> requests s1 = requests s @ [postRequest now s]
    \<and> req_value (postRequest now s) = of_int (selectedDuration s) / 60
    \<and> status s2 = Finished \<and> requests s2 = requests s1
    \<and> localStorage s2 TIMER_STATE_KEY = None
    \<and> (\<forall>t. fire t Tick s2 = s2)"
proof -
  define s1 where "s1 = fire now Tick s"
  define s2 where "s2 = fire now' (Fetched (length (pending s)) r) s1"
  have inv: "clock_inv s"
    using assms(1) by (rule reachable_clock_inv)
  have s1: "remaining s1 = Some 0" "status s1 = Posting"
    "requests s1 = requests s @ [postRequest now s]"
    "pending s1 = pending s @ [PostPending]" "interval s1 = None"
    using tick_zero [OF inv assms(2-4), of ] assms(5-7) by (simp_all add: s1_def)
  have k: "length (pending s) < length (pending s1)"
    "pending s1 ! length (pending s) = PostPending"
    by (simp_all add: s1)
  have s2: "status s2 = Finished" "requests s2 = requests s1"
    "localStorage s2 TIMER_STATE_KEY = None" "interval s2 = None"
    using assms(8) s1
    by (simp_all add: s2_def fire_def post_answered [OF k] commit_unfold countdownEffect_def)
  have "fire t Tick s2 = s2" for t
    using s2(4) by (rule tick_idle)
  then show ?thesis
    using s1 s2 by (simp add: Let_def s1_def [symmetric] s2_def [symmetric] postRequest_def)
qed

text \<open>
  The completion post when it fails: the status becomes error, the effect runs again with
  \<open>remaining\<close> still 0, and posts again.
\<close>

lemma completion_post_failed:
  assumes "remaining s = Some 0" and "status s = Posting"
    and "username s \<noteq> []" and "authToken s \<noteq> []" and "goalSlug s \<noteq> []"
    and "k < length (pending s)" and "pending s ! k = PostPending"
    and "thrown r = Some msg"
  shows "status (fire now (Fetched k r) s) = Posting
    \<and> requests (fire now (Fetched k r) s) = requests s @ [postRequest now s]
    \<and> length (pending (fire now (Fetched k r) s)) = length (pending s)"
proof -
  define s' where "s' = fetchDone k r s"
  have s': "s' = s\<lparr>pending := take k (pending s) @ drop (Suc k) (pending s),
                    status := Error, error := Some msg\<rparr>"
    using assms(8) by (simp add: s'_def post_answered [OF assms(6,7)])
  have d: "postDeps s \<noteq> postDeps s'"
    using assms(2) by (simp add: s' postDeps_def)
  have pr: "postRequest now s' = postRequest now s"
    by (simp add: s' postRequest_def)
  have "commit now s s' = s'\<lparr>status := Posting, error := None,
       requests := requests s' @ [postRequest now s'],
       pending := pending s' @ [PostPending], interval := None\<rparr>"
    using assms(1,3-5) d by (intro commit_posts) (simp_all add: s')
  then show ?thesis
    using assms(6) by (simp add: fire_def s'_def [symmetric] pr) (simp add: s')
qed

text \<open>
  C1. When the countdown reaches zero with the username, the token and the goal slug set,
  one datapoint is posted with the value \<open>selectedDuration / 60\<close> and the status becomes
  posting. When the server answers that post with an error the code does not stop at one
  attempt: after twenty minutes and one HTTP 500 there are two requests and the status is
  posting again, after a second HTTP 500 there are three.
\<close>

theorem completion_post_repeated:
  "remaining at_zero = Some 0 \<and> status at_zero = Posting
     \<and> map req_value (requests at_zero) = [20]
     \<and> status failed_once = Posting \<and> map req_value (requests failed_once) = [20, 20]
     \<and> status failed_twice = Posting
     \<and> map req_value (requests failed_twice) = [20, 20, 20]"
  by (simp add: failed_twice_def failed_once_def at_zero_def run_defs)

end
